theory Spec2Isabelle
  imports Main "HOL-Library.Word" "HOL-Library.Sublist"
begin

unbundle bit_operations_syntax

section \<open>Strings and byte arrays\<close>

text \<open>
  A JavaScript string is a sequence of UTF-16 code units; \<open>charCodeAt\<close>, \<open>includes\<close>,
  \<open>startsWith\<close>, \<open>endsWith\<close>, \<open>split\<close> and a regular expression without the \<open>u\<close> flag all
  work on code units. A \<open>Uint8Array\<close> is a sequence of bytes.
\<close>

type_synonym jsstring = "16 word list"
type_synonym bytes = "8 word list"

text \<open>An ASCII string literal of the source, as code units.\<close>

definition js :: "string \<Rightarrow> jsstring" where
  "js s = map of_char s"

fun startsWith :: "jsstring \<Rightarrow> jsstring \<Rightarrow> bool" where
  "startsWith s [] = True"
| "startsWith [] (p # ps) = False"
| "startsWith (c # cs) (p # ps) = (c = p \<and> startsWith cs ps)"

fun js_includes :: "jsstring \<Rightarrow> jsstring \<Rightarrow> bool" where
  "js_includes [] p = (p = [])"
| "js_includes (c # cs) p = (startsWith (c # cs) p \<or> js_includes cs p)"

definition endsWith :: "jsstring \<Rightarrow> jsstring \<Rightarrow> bool" where
  "endsWith s p = startsWith (rev s) (rev p)"

text \<open>\<open>s.split(sep)\<close> for a separator of one code unit: never empty, \<open>''.split('/')\<close> is \<open>['']\<close>.\<close>

fun split :: "jsstring \<Rightarrow> 16 word \<Rightarrow> jsstring list" where
  "split [] sep = [[]]"
| "split (c # cs) sep =
     (if c = sep then [] # split cs sep
      else (case split cs sep of
              [] \<Rightarrow> [[c]]
            | part # parts \<Rightarrow> (c # part) # parts))"

definition SLASH :: "16 word" where
  "SLASH = 0x2F"

section \<open>Data model\<close>

datatype issue_type = encoding | macos_artifact | ds_store | hidden_file

record DiagnosticIssue =
  type :: issue_type
  originalPath :: jsstring
  fixedPath :: "jsstring option"
  description :: jsstring

record DiagnosticReport =
  totalFiles :: nat
  issues :: "DiagnosticIssue list"
  macosArtifacts :: nat
  dsStoreFiles :: nat
  encodingIssues :: nat
  hiddenFiles :: nat
  encodingConfidence :: nat

record ProcessingOptions =
  removeMAcOSArtifacts :: bool
  removeDSStore :: bool
  removeHiddenFiles :: bool
  fixEncoding :: bool

definition DEFAULT_OPTIONS :: ProcessingOptions where
  "DEFAULT_OPTIONS = \<lparr> removeMAcOSArtifacts = True, removeDSStore = True,
     removeHiddenFiles = False, fixEncoding = True \<rparr>"

text \<open>
  \<open>Partial<ProcessingOptions>\<close>: every property may be absent (\<open>None\<close>). The spread
  \<open>{ ...DEFAULT_OPTIONS, ...options }\<close> takes each property from \<open>options\<close> when it is
  there and from the defaults otherwise.
\<close>

record PartialOptions =
  p_removeMAcOSArtifacts :: "bool option"
  p_removeDSStore :: "bool option"
  p_removeHiddenFiles :: "bool option"
  p_fixEncoding :: "bool option"

definition no_options :: PartialOptions where
  "no_options = \<lparr> p_removeMAcOSArtifacts = None, p_removeDSStore = None,
     p_removeHiddenFiles = None, p_fixEncoding = None \<rparr>"

definition merge_options :: "ProcessingOptions \<Rightarrow> PartialOptions \<Rightarrow> ProcessingOptions" where
  "merge_options d p = \<lparr>
     removeMAcOSArtifacts = (case p_removeMAcOSArtifacts p of None \<Rightarrow> removeMAcOSArtifacts d | Some b \<Rightarrow> b),
     removeDSStore = (case p_removeDSStore p of None \<Rightarrow> removeDSStore d | Some b \<Rightarrow> b),
     removeHiddenFiles = (case p_removeHiddenFiles p of None \<Rightarrow> removeHiddenFiles d | Some b \<Rightarrow> b),
     fixEncoding = (case p_fixEncoding p of None \<Rightarrow> fixEncoding d | Some b \<Rightarrow> b) \<rparr>"

section \<open>Mojibake detector\<close>

text \<open>
  \<open>isLikelyEUCKR\<close>: the loop runs \<open>i\<close> over the indices below \<open>length - 1\<close> and steps over
  both bytes of a pair that matches; the accumulator is \<open>eucKrPairs\<close>.
\<close>

fun eucKrPairs :: "bytes \<Rightarrow> nat \<Rightarrow> nat" where
  "eucKrPairs (b1 # b2 # rest) n =
     (if b1 \<ge> 0x81 \<and> b1 \<le> 0xFE \<and> b2 \<ge> 0x41 \<and> b2 \<le> 0xFE
      then eucKrPairs rest (n + 1)
      else eucKrPairs (b2 # rest) n)"
| "eucKrPairs bs n = n"

definition isLikelyEUCKR :: "bytes \<Rightarrow> bool" where
  "isLikelyEUCKR bs = (eucKrPairs bs 0 > 0)"

text \<open>
  A regular expression of the source is one character class: a list of inclusive ranges
  of code units. \<open>pattern.test(str)\<close> holds when some code unit of \<open>str\<close> is in the class.
\<close>

type_synonym char_class = "(16 word \<times> 16 word) list"

definition in_class :: "char_class \<Rightarrow> 16 word \<Rightarrow> bool" where
  "in_class cls c = list_ex (\<lambda>(lo, hi). lo \<le> c \<and> c \<le> hi) cls"

definition test :: "char_class \<Rightarrow> jsstring \<Rightarrow> bool" where
  "test cls str = list_ex (in_class cls) str"

definition suspiciousPatterns :: "char_class list" where
  "suspiciousPatterns = [[(0x80, 0x9F)], [(0xFFFE, 0xFFFE), (0xFFFF, 0xFFFF)]]"

definition hasEncodingIssues :: "jsstring \<Rightarrow> bool" where
  "hasEncodingIssues str =
     (if js_includes str [0xFFFD] then True
      else list_ex (\<lambda>pattern. test pattern str) suspiciousPatterns)"

fun isByteString :: "jsstring \<Rightarrow> bool" where
  "isByteString [] = True"
| "isByteString (c # cs) = (if c > 0xFF then False else isByteString cs)"

section \<open>Path classifier\<close>

definition isMacOSArtifact :: "jsstring \<Rightarrow> bool" where
  "isMacOSArtifact path =
     (startsWith path (js ''__MACOSX/'') \<or> js_includes path (js ''/__MACOSX/''))"

definition isDSStore :: "jsstring \<Rightarrow> bool" where
  "isDSStore path = (endsWith path (js ''.DS_Store'') \<or> js_includes path (js ''/.DS_Store''))"

definition isHiddenFile :: "jsstring \<Rightarrow> bool" where
  "isHiddenFile path =
     (let parts = split path SLASH
      in list_ex (\<lambda>part. startsWith part (js ''.'') \<and> part \<noteq> js ''.DS_Store'') parts)"

section \<open>Encoding repair engine\<close>

text \<open>
  \<open>new TextEncoder().encode(str)\<close>: the UTF-8 bytes of the string. A surrogate pair is one
  code point of four bytes; a surrogate without its partner is encoded as U+FFFD.
\<close>

definition is_high_surrogate :: "16 word \<Rightarrow> bool" where
  "is_high_surrogate c = (0xD800 \<le> c \<and> c \<le> 0xDBFF)"

definition is_low_surrogate :: "16 word \<Rightarrow> bool" where
  "is_low_surrogate c = (0xDC00 \<le> c \<and> c \<le> 0xDFFF)"

definition utf8_bytes :: "32 word \<Rightarrow> bytes" where
  "utf8_bytes cp =
     (if cp < 0x80 then [ucast cp]
      else if cp < 0x800 then
        [0xC0 OR ucast (drop_bit 6 cp), 0x80 OR ucast (cp AND 0x3F)]
      else if cp < 0x10000 then
        [0xE0 OR ucast (drop_bit 12 cp), 0x80 OR ucast (drop_bit 6 cp AND 0x3F),
         0x80 OR ucast (cp AND 0x3F)]
      else
        [0xF0 OR ucast (drop_bit 18 cp), 0x80 OR ucast (drop_bit 12 cp AND 0x3F),
         0x80 OR ucast (drop_bit 6 cp AND 0x3F), 0x80 OR ucast (cp AND 0x3F)])"

fun TextEncoder_encode :: "jsstring \<Rightarrow> bytes" where
  "TextEncoder_encode [] = []"
| "TextEncoder_encode [c] =
     (if is_high_surrogate c \<or> is_low_surrogate c then utf8_bytes 0xFFFD
      else utf8_bytes (ucast c))"
| "TextEncoder_encode (c # d # cs) =
     (if is_high_surrogate c \<and> is_low_surrogate d then
        utf8_bytes (0x10000 + push_bit 10 (ucast c - 0xD800) + (ucast d - 0xDC00))
          @ TextEncoder_encode cs
      else if is_high_surrogate c \<or> is_low_surrogate c then
        utf8_bytes 0xFFFD @ TextEncoder_encode (d # cs)
      else utf8_bytes (ucast c) @ TextEncoder_encode (d # cs))"

text \<open>
  \<open>new TextDecoder(label, { fatal: true }).decode(bytes)\<close> belongs to the platform, and its
  tables are not part of the repository: the three decoders are parameters of the model.
  A decoder returns \<open>None\<close> where \<open>decode\<close> throws, which each \<open>tryDecode\<close> function of the
  source turns into \<open>null\<close>.
\<close>

record decoders =
  euc_kr :: "bytes \<Rightarrow> jsstring option"
  shift_jis :: "bytes \<Rightarrow> jsstring option"
  gbk :: "bytes \<Rightarrow> jsstring option"

definition tryDecodeEUCKR :: "decoders \<Rightarrow> bytes \<Rightarrow> jsstring option" where
  "tryDecodeEUCKR D bs = euc_kr D bs"

definition tryDecodeShiftJIS :: "decoders \<Rightarrow> bytes \<Rightarrow> jsstring option" where
  "tryDecodeShiftJIS D bs = shift_jis D bs"

definition tryDecodeGBK :: "decoders \<Rightarrow> bytes \<Rightarrow> jsstring option" where
  "tryDecodeGBK D bs = gbk D bs"

text \<open>
  The test \<open>decoded && !hasEncodingIssues(decoded)\<close>: \<open>null\<close> and the empty string are both
  falsy, so a decoder's empty result is refused like its failure. \<open>clean\<close> keeps a decoded
  string that passes the test.
\<close>

definition clean :: "jsstring option \<Rightarrow> jsstring option" where
  "clean decoded =
     (case decoded of
        None \<Rightarrow> None
      | Some d \<Rightarrow> if d \<noteq> [] \<and> \<not> hasEncodingIssues d then Some d else None)"

record fix_result =
  fixed :: jsstring
  wasFixed :: bool

definition fixFilenameEncoding :: "decoders \<Rightarrow> jsstring \<Rightarrow> fix_result" where
  "fixFilenameEncoding D filename =
     (if \<not> isByteString filename then \<lparr> fixed = filename, wasFixed = False \<rparr>
      else if \<not> hasEncodingIssues filename then
        (let bs = map ucast filename :: bytes
         in if isLikelyEUCKR bs then
              (case clean (tryDecodeEUCKR D bs) of
                 Some decoded \<Rightarrow> \<lparr> fixed = decoded, wasFixed = True \<rparr>
               | None \<Rightarrow> \<lparr> fixed = filename, wasFixed = False \<rparr>)
            else \<lparr> fixed = filename, wasFixed = False \<rparr>)
      else
        (let bs = TextEncoder_encode filename
         in case clean (tryDecodeEUCKR D bs) of
              Some eucKrDecoded \<Rightarrow> \<lparr> fixed = eucKrDecoded, wasFixed = True \<rparr>
            | None \<Rightarrow>
               (case clean (tryDecodeShiftJIS D bs) of
                  Some shiftJisDecoded \<Rightarrow> \<lparr> fixed = shiftJisDecoded, wasFixed = True \<rparr>
                | None \<Rightarrow>
                   (case clean (tryDecodeGBK D bs) of
                      Some gbkDecoded \<Rightarrow> \<lparr> fixed = gbkDecoded, wasFixed = True \<rparr>
                    | None \<Rightarrow> \<lparr> fixed = filename, wasFixed = False \<rparr>))))"

section \<open>Archives\<close>

text \<open>
  What \<open>loadAsync\<close> hands to the loops: the pairs of \<open>Object.entries(contents.files)\<close> in
  their order. An entry has its directory flag and the bytes that
  \<open>zipEntry.async('uint8array')\<close> resolves to, \<open>None\<close> when that promise rejects.
\<close>

record zipEntry =
  dir :: bool
  content :: "bytes option"

type_synonym zipFiles = "(jsstring \<times> zipEntry) list"

datatype error = EntryReadFailure

text \<open>
  The archive under construction: the files of a \<open>JSZip\<close> object, by name in insertion
  order. \<open>zip.file(name, data)\<close> replaces the data of a name that is there and appends a
  new name.
\<close>

type_synonym archive = "(jsstring \<times> bytes) list"

fun zip_file :: "archive \<Rightarrow> jsstring \<Rightarrow> bytes \<Rightarrow> archive" where
  "zip_file [] name data = [(name, data)]"
| "zip_file ((n, d) # fs) name data =
     (if n = name then (name, data) # fs else (n, d) # zip_file fs name data)"

section \<open>Diagnostic aggregator\<close>

text \<open>The description literals of the source, as UTF-16 code units.\<close>

definition desc_analyze_macos :: jsstring where
  "desc_analyze_macos = js ''macOS '' @ [0xBA54, 0xD0C0, 0xB370, 0xC774, 0xD130, 0x0020,
     0xD30C, 0xC77C] @ js '' (__MACOSX)''"

definition desc_analyze_ds_store :: jsstring where
  "desc_analyze_ds_store = js ''macOS '' @ [0xD3F4, 0xB354, 0x0020, 0xC124, 0xC815, 0x0020,
     0xD30C, 0xC77C] @ js '' (.DS_Store)''"

definition desc_analyze_hidden :: jsstring where
  "desc_analyze_hidden = [0xC228, 0xAE40, 0x0020, 0xD30C, 0xC77C]"

definition desc_analyze_encoding :: jsstring where
  "desc_analyze_encoding = [0xD30C, 0xC77C, 0xBA85, 0x0020, 0xC778, 0xCF54, 0xB529, 0x0020,
     0xBB38, 0xC81C, 0x0020, 0xAC10, 0xC9C0] @ js '' (UTF-8'' @ [0xB85C, 0x0020, 0xBCC0,
     0xD658, 0x0020, 0xD544, 0xC694] @ js '')''"

definition desc_process_macos :: jsstring where
  "desc_process_macos = [0xC0AD, 0xC81C, 0xB428] @ js '': macOS '' @ [0xBA54, 0xD0C0, 0xB370,
     0xC774, 0xD130, 0x0020, 0xD30C, 0xC77C]"

definition desc_process_ds_store :: jsstring where
  "desc_process_ds_store = [0xC0AD, 0xC81C, 0xB428] @ js '': .DS_Store '' @ [0xD30C, 0xC77C]"

definition desc_process_hidden :: jsstring where
  "desc_process_hidden = [0xC0AD, 0xC81C, 0xB428] @ js '': '' @ [0xC228, 0xAE40, 0x0020,
     0xD30C, 0xC77C]"

definition desc_process_encoding :: jsstring where
  "desc_process_encoding = [0xD30C, 0xC77C, 0xBA85, 0x0020, 0xC778, 0xCF54, 0xB529, 0x0020,
     0xC218, 0xC815, 0xB428]"

definition desc_create_ds_store :: jsstring where
  "desc_create_ds_store = [0xC81C, 0xC678, 0xB428] @ js '': .DS_Store '' @ [0xD30C, 0xC77C]"

definition desc_create_hidden :: jsstring where
  "desc_create_hidden = [0xC81C, 0xC678, 0xB428] @ js '': '' @ [0xC228, 0xAE40, 0x0020,
     0xD30C, 0xC77C]"

text \<open>
  The local variables \<open>issues\<close>, \<open>macosArtifacts\<close>, \<open>dsStoreFiles\<close>, \<open>encodingIssues\<close>,
  \<open>hiddenFiles\<close> and \<open>totalFiles\<close> of a loop are held in a report whose
  \<open>encodingConfidence\<close> is filled in after the loop.
\<close>

definition initial :: DiagnosticReport where
  "initial = \<lparr> totalFiles = 0, issues = [], macosArtifacts = 0, dsStoreFiles = 0,
     encodingIssues = 0, hiddenFiles = 0, encodingConfidence = 0 \<rparr>"

definition push :: "DiagnosticIssue \<Rightarrow> DiagnosticReport \<Rightarrow> DiagnosticReport" where
  "push i r = r\<lparr> issues := issues r @ [i] \<rparr>"

text \<open>The score computed after the loop, the same statements in both functions.\<close>

definition confidence :: "nat \<Rightarrow> nat \<Rightarrow> nat \<Rightarrow> nat" where
  "confidence macos ds enc =
     (let c0 = 0;
          c1 = (if macos > 0 \<or> ds > 0 then c0 + 40 else c0);
          c2 = (if enc > 0 then c1 + min 60 (enc * 15) else c1)
      in min 100 c2)"

definition finish :: "DiagnosticReport \<Rightarrow> DiagnosticReport" where
  "finish r = r\<lparr> encodingConfidence :=
     confidence (macosArtifacts r) (dsStoreFiles r) (encodingIssues r) \<rparr>"

text \<open>One iteration of the loop of \<open>analyzeZip\<close>.\<close>

definition analyze_entry :: "decoders \<Rightarrow> jsstring \<times> zipEntry \<Rightarrow> DiagnosticReport \<Rightarrow> DiagnosticReport" where
  "analyze_entry D pe r0 =
     (let path = fst pe; entry = snd pe
      in if dir entry then r0
         else
           let r = r0\<lparr> totalFiles := totalFiles r0 + 1 \<rparr>
           in if isMacOSArtifact path then
                push \<lparr> type = macos_artifact, originalPath = path, fixedPath = None,
                       description = desc_analyze_macos \<rparr>
                  (r\<lparr> macosArtifacts := macosArtifacts r + 1 \<rparr>)
              else if isDSStore path then
                push \<lparr> type = ds_store, originalPath = path, fixedPath = None,
                       description = desc_analyze_ds_store \<rparr>
                  (r\<lparr> dsStoreFiles := dsStoreFiles r + 1 \<rparr>)
              else
                let r1 = (if isHiddenFile path then
                            push \<lparr> type = hidden_file, originalPath = path, fixedPath = None,
                                   description = desc_analyze_hidden \<rparr>
                              (r\<lparr> hiddenFiles := hiddenFiles r + 1 \<rparr>)
                          else r);
                    res = fixFilenameEncoding D path
                in if wasFixed res then
                     push \<lparr> type = encoding, originalPath = path, fixedPath = Some (fixed res),
                            description = desc_analyze_encoding \<rparr>
                       (r1\<lparr> encodingIssues := encodingIssues r1 + 1 \<rparr>)
                   else r1)"

fun analyze_loop :: "decoders \<Rightarrow> zipFiles \<Rightarrow> DiagnosticReport \<Rightarrow> DiagnosticReport" where
  "analyze_loop D [] r = r"
| "analyze_loop D (pe # rest) r = analyze_loop D rest (analyze_entry D pe r)"

definition analyzeZip :: "decoders \<Rightarrow> zipFiles \<Rightarrow> DiagnosticReport" where
  "analyzeZip D files = finish (analyze_loop D files initial)"

section \<open>Archive rewriter\<close>

record rewrite_state =
  report :: DiagnosticReport
  targetZip :: archive
  processedFiles :: nat

text \<open>
  One iteration of the loop of \<open>processZip\<close>. An entry that an option removes ends the
  iteration (\<open>continue\<close>); any other entry goes on to the next test and is copied at the end.
\<close>

definition process_entry ::
  "decoders \<Rightarrow> ProcessingOptions \<Rightarrow> jsstring \<times> zipEntry \<Rightarrow> rewrite_state \<Rightarrow> error + rewrite_state" where
  "process_entry D opts pe s =
     (let path = fst pe; entry = snd pe
      in if dir entry then Inr s
         else
           let r = (report s)\<lparr> totalFiles := totalFiles (report s) + 1 \<rparr>;
               r1 = (if isMacOSArtifact path then r\<lparr> macosArtifacts := macosArtifacts r + 1 \<rparr> else r)
           in if isMacOSArtifact path \<and> removeMAcOSArtifacts opts then
                Inr (s\<lparr> report := push \<lparr> type = macos_artifact, originalPath = path,
                              fixedPath = None, description = desc_process_macos \<rparr> r1 \<rparr>)
              else
                let r2 = (if isDSStore path then r1\<lparr> dsStoreFiles := dsStoreFiles r1 + 1 \<rparr> else r1)
                in if isDSStore path \<and> removeDSStore opts then
                     Inr (s\<lparr> report := push \<lparr> type = ds_store, originalPath = path,
                                   fixedPath = None, description = desc_process_ds_store \<rparr> r2 \<rparr>)
                   else
                     let r3 = (if isHiddenFile path then r2\<lparr> hiddenFiles := hiddenFiles r2 + 1 \<rparr> else r2)
                     in if isHiddenFile path \<and> removeHiddenFiles opts then
                          Inr (s\<lparr> report := push \<lparr> type = hidden_file, originalPath = path,
                                        fixedPath = None, description = desc_process_hidden \<rparr> r3 \<rparr>)
                        else
                          let res = fixFilenameEncoding D path;
                              renamed = fixEncoding opts \<and> wasFixed res;
                              r4 = (if renamed then
                                      push \<lparr> type = encoding, originalPath = path,
                                             fixedPath = Some (fixed res),
                                             description = desc_process_encoding \<rparr>
                                        (r3\<lparr> encodingIssues := encodingIssues r3 + 1 \<rparr>)
                                    else r3);
                              finalPath = (if renamed then fixed res else path)
                          in case content entry of
                               None \<Rightarrow> Inl EntryReadFailure
                             | Some bs \<Rightarrow>
                                 Inr \<lparr> report = r4,
                                       targetZip = zip_file (targetZip s) finalPath bs,
                                       processedFiles = processedFiles s + 1 \<rparr>)"

fun process_loop ::
  "decoders \<Rightarrow> ProcessingOptions \<Rightarrow> zipFiles \<Rightarrow> rewrite_state \<Rightarrow> error + rewrite_state" where
  "process_loop D opts [] s = Inr s"
| "process_loop D opts (pe # rest) s =
     (case process_entry D opts pe s of
        Inl e \<Rightarrow> Inl e
      | Inr s' \<Rightarrow> process_loop D opts rest s')"

text \<open>
  \<open>processZip\<close> returns the blob that \<open>generateAsync\<close> makes of \<open>targetZip\<close>, and the report;
  the model returns the files of \<open>targetZip\<close> for the blob.
\<close>

definition processZip ::
  "decoders \<Rightarrow> zipFiles \<Rightarrow> PartialOptions \<Rightarrow> error + (archive \<times> DiagnosticReport)" where
  "processZip D files options =
     (let opts = merge_options DEFAULT_OPTIONS options
      in case process_loop D opts files
                \<lparr> report = initial, targetZip = [], processedFiles = 0 \<rparr> of
           Inl e \<Rightarrow> Inl e
         | Inr s \<Rightarrow> Inr (targetZip s, finish (report s)))"

section \<open>Archive from host files\<close>

text \<open>
  A \<open>File\<close> of the host: its name, its \<open>webkitRelativePath\<close> when the property is there,
  and the bytes that \<open>arrayBuffer()\<close> resolves to, \<open>None\<close> when that promise rejects.
\<close>

record hostFile =
  name :: jsstring
  webkitRelativePath :: "jsstring option"
  arrayBuffer :: "bytes option"

text \<open>\<open>webkitRelativePath || file.name\<close>: an absent or empty relative path gives the name.\<close>

definition relativePath :: "hostFile \<Rightarrow> jsstring" where
  "relativePath f =
     (case webkitRelativePath f of
        None \<Rightarrow> name f
      | Some p \<Rightarrow> if p = [] then name f else p)"

definition create_entry :: "ProcessingOptions \<Rightarrow> hostFile \<Rightarrow> rewrite_state \<Rightarrow> error + rewrite_state" where
  "create_entry opts f s =
     (let path = relativePath f;
          r = (report s)\<lparr> totalFiles := totalFiles (report s) + 1 \<rparr>;
          r1 = (if isDSStore path then r\<lparr> dsStoreFiles := dsStoreFiles r + 1 \<rparr> else r)
      in if isDSStore path \<and> removeDSStore opts then
           Inr (s\<lparr> report := push \<lparr> type = ds_store, originalPath = path,
                         fixedPath = None, description = desc_create_ds_store \<rparr> r1 \<rparr>)
         else
           let r2 = (if isHiddenFile path then r1\<lparr> hiddenFiles := hiddenFiles r1 + 1 \<rparr> else r1)
           in if isHiddenFile path \<and> removeHiddenFiles opts then
                Inr (s\<lparr> report := push \<lparr> type = hidden_file, originalPath = path,
                              fixedPath = None, description = desc_create_hidden \<rparr> r2 \<rparr>)
              else
                case arrayBuffer f of
                  None \<Rightarrow> Inl EntryReadFailure
                | Some bs \<Rightarrow>
                    Inr \<lparr> report = r2,
                          targetZip = zip_file (targetZip s) path bs,
                          processedFiles = processedFiles s + 1 \<rparr>)"

fun create_loop :: "ProcessingOptions \<Rightarrow> hostFile list \<Rightarrow> rewrite_state \<Rightarrow> error + rewrite_state" where
  "create_loop opts [] s = Inr s"
| "create_loop opts (f # rest) s =
     (case create_entry opts f s of
        Inl e \<Rightarrow> Inl e
      | Inr s' \<Rightarrow> create_loop opts rest s')"

text \<open>
  The report of \<open>createZipFromFiles\<close> has \<open>macosArtifacts\<close>, \<open>encodingIssues\<close> and
  \<open>encodingConfidence\<close> written as the literal 0.
\<close>

definition createZipFromFiles ::
  "hostFile list \<Rightarrow> PartialOptions \<Rightarrow> error + (archive \<times> DiagnosticReport)" where
  "createZipFromFiles files options =
     (let opts = merge_options DEFAULT_OPTIONS options
      in case create_loop opts files
                \<lparr> report = initial, targetZip = [], processedFiles = 0 \<rparr> of
           Inl e \<Rightarrow> Inl e
         | Inr s \<Rightarrow>
             Inr (targetZip s,
                  \<lparr> totalFiles = totalFiles (report s), issues = issues (report s),
                    macosArtifacts = 0, dsStoreFiles = dsStoreFiles (report s),
                    encodingIssues = 0, hiddenFiles = hiddenFiles (report s),
                    encodingConfidence = 0 \<rparr>))"

section \<open>A fragment of the platform's decoders\<close>

text \<open>
  Concrete inputs need concrete decoders. \<open>euc_kr_fragment\<close> follows the decoder of the
  Encoding Standard for the label \<open>euc-kr\<close> (an ASCII byte is its own code point; a lead
  byte 0x81 to 0xFE and a trail byte 0x41 to 0xFE give the pointer
  \<open>(lead - 0x81) * 190 + (trail - 0x41)\<close> into the index; anything else is an error) with
  four entries of the index: 0xA8A1 is U+00C6, 0xC0CF is U+C77C, 0xC6C4 is U+D30C and
  0xC6C6 is U+D30E. Where the fragment returns a string, the platform's decoder returns
  the same string; where it returns \<open>None\<close> the pair may be outside the fragment.
  \<open>ascii_fragment\<close> decodes the ASCII bytes, which the decoders for \<open>shift-jis\<close> and
  \<open>gbk\<close> map to themselves.
\<close>

definition euc_kr_index :: "nat \<Rightarrow> 16 word option" where
  "euc_kr_index pointer =
     (if pointer = (0xA8 - 0x81) * 190 + (0xA1 - 0x41) then Some 0x00C6
      else if pointer = (0xC0 - 0x81) * 190 + (0xCF - 0x41) then Some 0xC77C
      else if pointer = (0xC6 - 0x81) * 190 + (0xC4 - 0x41) then Some 0xD30C
      else if pointer = (0xC6 - 0x81) * 190 + (0xC6 - 0x41) then Some 0xD30E
      else None)"

fun euc_kr_fragment :: "bytes \<Rightarrow> jsstring option" where
  "euc_kr_fragment [] = Some []"
| "euc_kr_fragment [b] = (if b \<le> 0x7F then Some [ucast b] else None)"
| "euc_kr_fragment (b # t # bs) =
     (if b \<le> 0x7F then map_option ((#) (ucast b)) (euc_kr_fragment (t # bs))
      else if 0x81 \<le> b \<and> b \<le> 0xFE \<and> 0x41 \<le> t \<and> t \<le> 0xFE then
        (case euc_kr_index ((unat b - 0x81) * 190 + (unat t - 0x41)) of
           None \<Rightarrow> None
         | Some c \<Rightarrow> map_option ((#) c) (euc_kr_fragment bs))
      else None)"

definition ascii_fragment :: "bytes \<Rightarrow> jsstring option" where
  "ascii_fragment bs = (if list_all (\<lambda>b. b \<le> 0x7F) bs then Some (map ucast bs) else None)"

definition sample_decoders :: decoders where
  "sample_decoders = \<lparr> euc_kr = euc_kr_fragment, shift_jis = ascii_fragment,
     gbk = ascii_fragment \<rparr>"

definition file_entry :: "bytes \<Rightarrow> zipEntry" where
  "file_entry bs = \<lparr> dir = False, content = Some bs \<rparr>"

section \<open>Vocabulary of the properties\<close>

text \<open>The number of issues of one kind in a list of issues.\<close>

definition count_type :: "issue_type \<Rightarrow> DiagnosticIssue list \<Rightarrow> nat" where
  "count_type t is = length (filter (\<lambda>i. type i = t) is)"

text \<open>
  The detector as the specification words it: the replacement character U+FFFD, a
  byte-order mark (U+FEFF), a non-character (U+FDD0 to U+FDEF, and the last two code points
  of every plane, which beyond U+FFFF are a surrogate pair), or a C1 control.
\<close>

fun has_astral_noncharacter :: "jsstring \<Rightarrow> bool" where
  "has_astral_noncharacter (c # d # cs) =
     ((is_high_surrogate c \<and> c AND 0x3F = 0x3F \<and> (d = 0xDFFE \<or> d = 0xDFFF))
      \<or> has_astral_noncharacter (d # cs))"
| "has_astral_noncharacter cs = False"

definition spec_looksDamaged :: "jsstring \<Rightarrow> bool" where
  "spec_looksDamaged text =
     (list_ex (\<lambda>c. c = 0xFFFD \<or> c = 0xFEFF \<or> (0xFDD0 \<le> c \<and> c \<le> 0xFDEF)
                  \<or> c = 0xFFFE \<or> c = 0xFFFF \<or> (0x80 \<le> c \<and> c \<le> 0x9F)) text
      \<or> has_astral_noncharacter text)"

text \<open>A name without the characters that the detector of the source looks for.\<close>

definition spec_free_of_damage :: "jsstring \<Rightarrow> bool" where
  "spec_free_of_damage f =
     list_all (\<lambda>c. c \<noteq> 0xFFFD \<and> \<not> (0x80 \<le> c \<and> c \<le> 0x9F) \<and> c \<noteq> 0xFFFE \<and> c \<noteq> 0xFFFF) f"

text \<open>The confidence score as the specification words it.\<close>

definition spec_confidence :: "nat \<Rightarrow> nat \<Rightarrow> nat \<Rightarrow> nat" where
  "spec_confidence macos ds enc =
     min 100 (max 0 ((if macos > 0 \<or> ds > 0 then 40 else 0) + min 60 (enc * 15)))"

text \<open>
  The entries that a report counts as hidden files and as metadata artifacts: by
  \<open>analyzeZip\<close>, and by \<open>processZip\<close> when it removes the metadata artifacts.
\<close>

definition hidden_counted :: "jsstring \<times> zipEntry \<Rightarrow> bool" where
  "hidden_counted pe \<longleftrightarrow>
     \<not> dir (snd pe) \<and> \<not> isMacOSArtifact (fst pe) \<and> \<not> isDSStore (fst pe) \<and> isHiddenFile (fst pe)"

definition macos_counted :: "jsstring \<times> zipEntry \<Rightarrow> bool" where
  "macos_counted pe \<longleftrightarrow> \<not> dir (snd pe) \<and> isMacOSArtifact (fst pe)"

definition hidden_counted_under :: "ProcessingOptions \<Rightarrow> jsstring \<times> zipEntry \<Rightarrow> bool" where
  "hidden_counted_under opts pe \<longleftrightarrow>
     \<not> dir (snd pe) \<and> \<not> isMacOSArtifact (fst pe) \<and>
     \<not> (isDSStore (fst pe) \<and> removeDSStore opts) \<and> isHiddenFile (fst pe)"

subsection \<open>Invariants of the loops\<close>

definition counted :: "DiagnosticReport \<Rightarrow> bool" where
  "counted r \<longleftrightarrow>
     encodingIssues r = count_type encoding (issues r) \<and>
     macosArtifacts r = count_type macos_artifact (issues r) \<and>
     dsStoreFiles r = count_type ds_store (issues r) \<and>
     hiddenFiles r = count_type hidden_file (issues r)"

definition counted_under :: "ProcessingOptions \<Rightarrow> DiagnosticReport \<Rightarrow> bool" where
  "counted_under opts r \<longleftrightarrow>
     encodingIssues r = count_type encoding (issues r) \<and>
     count_type macos_artifact (issues r) \<le> macosArtifacts r \<and>
     count_type ds_store (issues r) \<le> dsStoreFiles r \<and>
     count_type hidden_file (issues r) \<le> hiddenFiles r \<and>
     (removeMAcOSArtifacts opts \<longrightarrow> macosArtifacts r = count_type macos_artifact (issues r)) \<and>
     (removeDSStore opts \<longrightarrow> dsStoreFiles r = count_type ds_store (issues r)) \<and>
     (removeHiddenFiles opts \<longrightarrow> hiddenFiles r = count_type hidden_file (issues r))"

definition artifacts_typed :: "DiagnosticReport \<Rightarrow> bool" where
  "artifacts_typed r \<longleftrightarrow>
     (\<forall>i \<in> set (issues r). isMacOSArtifact (originalPath i) \<longrightarrow> type i = macos_artifact)"

definition repaired_clean :: "DiagnosticReport \<Rightarrow> bool" where
  "repaired_clean r \<longleftrightarrow>
     (\<forall>i \<in> set (issues r). type i = encoding \<longrightarrow>
        (\<exists>f. fixedPath i = Some f \<and> spec_free_of_damage f))"

text \<open>An output file \<open>out\<close> is the copy that \<open>processZip\<close> makes of the source entry \<open>pe\<close>.\<close>

definition copied :: "decoders \<Rightarrow> ProcessingOptions \<Rightarrow> jsstring \<times> zipEntry \<Rightarrow> jsstring \<times> bytes \<Rightarrow> bool" where
  "copied D opts pe out \<longleftrightarrow>
     \<not> dir (snd pe) \<and> content (snd pe) = Some (snd out) \<and>
     \<not> (isMacOSArtifact (fst pe) \<and> removeMAcOSArtifacts opts) \<and>
     \<not> (isDSStore (fst pe) \<and> removeDSStore opts) \<and>
     \<not> (isHiddenFile (fst pe) \<and> removeHiddenFiles opts) \<and>
     fst out = (if fixEncoding opts \<and> wasFixed (fixFilenameEncoding D (fst pe))
                then fixed (fixFilenameEncoding D (fst pe)) else fst pe)"

text \<open>The inverse of \<open>split\<close>: the parts with the separator between them.\<close>

fun join :: "16 word \<Rightarrow> jsstring list \<Rightarrow> jsstring" where
  "join sep [] = []"
| "join sep [x] = x"
| "join sep (x # y # ys) = x @ sep # join sep (y # ys)"

subsection \<open>Concrete archives\<close>

text \<open>
  \<open>mojibake_name\<close> is the name of the file U+D30C U+C77C \<open>.txt\<close>, written in EUC-KR and read
  one byte per character.
\<close>

definition mojibake_name :: jsstring where
  "mojibake_name = [0xC6, 0xC4, 0xC0, 0xCF] @ js ''.txt''"

definition repaired_name :: jsstring where
  "repaired_name = [0xD30C, 0xC77C] @ js ''.txt''"

definition sample_archive :: zipFiles where
  "sample_archive =
     [(js ''docs/'', \<lparr> dir = True, content = None \<rparr>),
      (js ''__MACOSX/._doc.txt'', file_entry [1]),
      (js ''.DS_Store'', file_entry [2]),
      (js ''.gitignore'', file_entry [3]),
      (mojibake_name, file_entry [4]),
      (js ''readme.txt'', file_entry [5])]"

definition sample_output :: archive where
  "sample_output = [(js ''.gitignore'', [3]), (repaired_name, [4]), (js ''readme.txt'', [5])]"

definition sample_report :: DiagnosticReport where
  "sample_report = \<lparr> totalFiles = 5,
     issues =
       [\<lparr> type = macos_artifact, originalPath = js ''__MACOSX/._doc.txt'', fixedPath = None,
          description = desc_process_macos \<rparr>,
        \<lparr> type = ds_store, originalPath = js ''.DS_Store'', fixedPath = None,
          description = desc_process_ds_store \<rparr>,
        \<lparr> type = encoding, originalPath = mojibake_name, fixedPath = Some repaired_name,
          description = desc_process_encoding \<rparr>],
     macosArtifacts = 1, dsStoreFiles = 1, encodingIssues = 1, hiddenFiles = 1,
     encodingConfidence = 55 \<rparr>"

definition strict_options :: PartialOptions where
  "strict_options = \<lparr> p_removeMAcOSArtifacts = None, p_removeDSStore = None,
     p_removeHiddenFiles = Some True, p_fixEncoding = None \<rparr>"

definition strict_output :: archive where
  "strict_output = [(repaired_name, [4]), (js ''readme.txt'', [5])]"

definition strict_report :: DiagnosticReport where
  "strict_report = \<lparr> totalFiles = 5,
     issues =
       [\<lparr> type = macos_artifact, originalPath = js ''__MACOSX/._doc.txt'', fixedPath = None,
          description = desc_process_macos \<rparr>,
        \<lparr> type = ds_store, originalPath = js ''.DS_Store'', fixedPath = None,
          description = desc_process_ds_store \<rparr>,
        \<lparr> type = hidden_file, originalPath = js ''.gitignore'', fixedPath = None,
          description = desc_process_hidden \<rparr>,
        \<lparr> type = encoding, originalPath = mojibake_name, fixedPath = Some repaired_name,
          description = desc_process_encoding \<rparr>],
     macosArtifacts = 1, dsStoreFiles = 1, encodingIssues = 1, hiddenFiles = 1,
     encodingConfidence = 55 \<rparr>"

definition gitignore_archive :: zipFiles where
  "gitignore_archive = [(js ''.gitignore'', file_entry [0x2A])]"

definition gitignore_report :: DiagnosticReport where
  "gitignore_report = \<lparr> totalFiles = 1, issues = [], macosArtifacts = 0, dsStoreFiles = 0,
     encodingIssues = 0, hiddenFiles = 1, encodingConfidence = 0 \<rparr>"

definition artifact_archive :: zipFiles where
  "artifact_archive = [(js ''__MACOSX/._doc.txt'', file_entry [1])]"

definition keep_artifacts :: PartialOptions where
  "keep_artifacts = \<lparr> p_removeMAcOSArtifacts = Some False, p_removeDSStore = None,
     p_removeHiddenFiles = None, p_fixEncoding = None \<rparr>"

definition artifact_report :: DiagnosticReport where
  "artifact_report = \<lparr> totalFiles = 1, issues = [], macosArtifacts = 1, dsStoreFiles = 0,
     encodingIssues = 0, hiddenFiles = 1, encodingConfidence = 40 \<rparr>"

definition ds_store_host_files :: "hostFile list" where
  "ds_store_host_files =
     [\<lparr> name = js ''.DS_Store'', webkitRelativePath = None, arrayBuffer = Some [] \<rparr>]"

definition ds_store_host_report :: DiagnosticReport where
  "ds_store_host_report = \<lparr> totalFiles = 1,
     issues = [\<lparr> type = ds_store, originalPath = js ''.DS_Store'', fixedPath = None,
                 description = desc_create_ds_store \<rparr>],
     macosArtifacts = 0, dsStoreFiles = 1, encodingIssues = 0, hiddenFiles = 0,
     encodingConfidence = 0 \<rparr>"

section \<open>String operations\<close>

lemma startsWith_iff: "startsWith s p \<longleftrightarrow> (\<exists>t. s = p @ t)"
  by (induction s p rule: startsWith.induct) auto

lemma js_includes_iff: "js_includes s p \<longleftrightarrow> (\<exists>a b. s = a @ p @ b)"
proof (induction s)
  case Nil
  then show ?case by auto
next
  case (Cons c cs)
  show ?case
  proof
    assume "js_includes (c # cs) p"
    then consider "startsWith (c # cs) p" | "js_includes cs p" by auto
    then show "\<exists>a b. c # cs = a @ p @ b"
    proof cases
      case 1
      then obtain t where "c # cs = p @ t" by (auto simp: startsWith_iff)
      then have "c # cs = [] @ p @ t" by simp
      then show ?thesis by blast
    next
      case 2
      then obtain a b where "cs = a @ p @ b" using Cons.IH by auto
      then have "c # cs = (c # a) @ p @ b" by simp
      then show ?thesis by blast
    qed
  next
    assume "\<exists>a b. c # cs = a @ p @ b"
    then obtain a b where ab: "c # cs = a @ p @ b" by auto
    show "js_includes (c # cs) p"
    proof (cases a)
      case Nil
      with ab have "startsWith (c # cs) p" by (auto simp: startsWith_iff)
      then show ?thesis by simp
    next
      case (Cons x a')
      with ab have "cs = a' @ p @ b" by simp
      then have "js_includes cs p" using Cons.IH by auto
      then show ?thesis by simp
    qed
  qed
qed

text \<open>The three tests are the prefix, suffix and contiguous-sublist orders of the library.\<close>

lemma startsWith_prefix: "startsWith s p \<longleftrightarrow> prefix p s"
  by (simp add: startsWith_iff prefix_def)

lemma endsWith_suffix: "endsWith s p \<longleftrightarrow> suffix p s"
  by (simp add: endsWith_def startsWith_prefix suffix_to_prefix)

lemma js_includes_sublist: "js_includes s p \<longleftrightarrow> sublist p s"
  by (simp add: js_includes_iff sublist_def)

lemma js_includes_single: "js_includes s [x] \<longleftrightarrow> x \<in> set s"
  by (induction s) auto

lemma split_nonempty: "split s sep \<noteq> []"
  by (induction s) (auto split: list.splits)

lemma join_Cons: "ys \<noteq> [] \<Longrightarrow> join sep (x # ys) = x @ sep # join sep ys"
  by (cases ys) simp_all

lemma join_split: "join sep (split s sep) = s"
proof (induction s)
  case Nil
  show ?case by simp
next
  case (Cons c cs)
  show ?case
  proof (cases "c = sep")
    case True
    then show ?thesis using Cons split_nonempty [of cs sep] by (simp add: join_Cons)
  next
    case False
    obtain part parts where sp: "split cs sep = part # parts"
      using split_nonempty [of cs sep] by (cases "split cs sep") auto
    with Cons have "join sep (part # parts) = cs" by simp
    then have "join sep ((c # part) # parts) = c # cs" by (cases parts) auto
    with False sp show ?thesis by simp
  qed
qed

lemma join_append:
  "xs \<noteq> [] \<Longrightarrow> ys \<noteq> [] \<Longrightarrow> join sep (xs @ ys) = join sep xs @ sep # join sep ys"
proof (induction xs)
  case Nil
  then show ?case by simp
next
  case (Cons x xs)
  show ?case
  proof (cases xs)
    case Nil
    then show ?thesis using Cons.prems by (simp add: join_Cons)
  next
    case (Cons x' xs')
    then have "join sep (xs @ ys) = join sep xs @ sep # join sep ys"
      using Cons.IH Cons.prems by simp
    then show ?thesis using Cons by (simp add: join_Cons)
  qed
qed

lemma split_append: "split (a @ sep # b) sep = split a sep @ split b sep"
proof (induction a)
  case Nil
  show ?case by simp
next
  case (Cons c a)
  show ?case
  proof (cases "c = sep")
    case True
    then show ?thesis using Cons by simp
  next
    case False
    obtain part parts where sp: "split a sep = part # parts"
      using split_nonempty [of a sep] by (cases "split a sep") auto
    with False Cons show ?thesis by simp
  qed
qed

lemma split_no_sep: "sep \<notin> set m \<Longrightarrow> split m sep = [m]"
  by (induction m) auto

text \<open>
  A name without the separator is a part of the path other than the last one exactly when
  the path starts with the name and a separator, or has the name between two separators.
\<close>

lemma segment_iff:
  assumes m: "sep \<notin> set m"
  shows "m \<in> set (butlast (split s sep)) \<longleftrightarrow>
         startsWith s (m @ [sep]) \<or> js_includes s (sep # m @ [sep])"
proof
  assume "m \<in> set (butlast (split s sep))"
  then obtain A B' where bl: "butlast (split s sep) = A @ m # B'"
    by (auto simp: in_set_conv_decomp)
  have "split s sep = butlast (split s sep) @ [last (split s sep)]"
    using split_nonempty [of s sep] by simp
  with bl obtain B where sp: "split s sep = A @ m # B" and B: "B \<noteq> []"
    by (metis append.assoc append_Cons snoc_eq_iff_butlast)
  have s: "s = join sep (A @ m # B)" using join_split [of sep s] sp by simp
  show "startsWith s (m @ [sep]) \<or> js_includes s (sep # m @ [sep])"
  proof (cases A)
    case Nil
    with s B have "s = (m @ [sep]) @ join sep B" by (simp add: join_Cons)
    then show ?thesis unfolding startsWith_iff by blast
  next
    case (Cons a A')
    then have "A \<noteq> []" by simp
    then have "s = join sep A @ sep # join sep (m # B)"
      using s join_append [of A "m # B" sep] by simp
    then have "s = join sep A @ (sep # m @ [sep]) @ join sep B"
      using B by (simp add: join_Cons)
    then show ?thesis unfolding js_includes_iff by blast
  qed
next
  assume "startsWith s (m @ [sep]) \<or> js_includes s (sep # m @ [sep])"
  then consider t where "s = m @ sep # t" | a b where "s = a @ sep # m @ sep # b"
    unfolding startsWith_iff js_includes_iff by auto
  then show "m \<in> set (butlast (split s sep))"
  proof cases
    case 1
    then have "split s sep = [m] @ split t sep"
      using split_append [of m sep t] m by (simp add: split_no_sep)
    then show ?thesis using split_nonempty [of t sep] by (simp add: butlast_append)
  next
    case 2
    then have "split s sep = split a sep @ split (m @ sep # b) sep"
      using split_append [of a sep "m @ sep # b"] by simp
    also have "split (m @ sep # b) sep = [m] @ split b sep"
      using split_append [of m sep b] m by (simp add: split_no_sep)
    finally have "split s sep = split a sep @ m # split b sep" by simp
    then show ?thesis using split_nonempty [of b sep] by (simp add: butlast_append)
  qed
qed

section \<open>The detector and the repair\<close>

lemma test_range: "test [(lo, hi)] s \<longleftrightarrow> (\<exists>c \<in> set s. lo \<le> c \<and> c \<le> hi)"
  by (simp add: test_def in_class_def list_ex_iff)

lemma range_single: "(a::16 word) \<le> c \<and> c \<le> a \<longleftrightarrow> c = a"
  by (rule iffI) (simp_all add: order.antisym)

lemma test_points: "test [(a, a), (b, b)] s \<longleftrightarrow> (\<exists>c \<in> set s. c = a \<or> c = b)"
  by (simp add: test_def in_class_def list_ex_iff range_single)

lemma hasEncodingIssues_iff:
  "hasEncodingIssues s \<longleftrightarrow>
     (\<exists>c \<in> set s. c = 0xFFFD \<or> c = 0xFFFE \<or> c = 0xFFFF \<or> (0x80 \<le> c \<and> c \<le> 0x9F))"
proof -
  have "hasEncodingIssues s \<longleftrightarrow>
      0xFFFD \<in> set s \<or> test [(0x80, 0x9F)] s \<or> test [(0xFFFE, 0xFFFE), (0xFFFF, 0xFFFF)] s"
    by (simp add: hasEncodingIssues_def js_includes_single suspiciousPatterns_def)
  then show ?thesis
    unfolding test_range test_points by blast
qed

lemma free_of_damage_iff: "spec_free_of_damage f \<longleftrightarrow> \<not> hasEncodingIssues f"
  unfolding hasEncodingIssues_iff spec_free_of_damage_def list_all_iff by blast

lemma clean_Some: "clean d = Some x \<Longrightarrow> x \<noteq> [] \<and> \<not> hasEncodingIssues x"
  by (auto simp: clean_def split: option.splits if_splits)

lemma fix_wasFixed_clean:
  "wasFixed (fixFilenameEncoding D p) \<Longrightarrow> \<not> hasEncodingIssues (fixed (fixFilenameEncoding D p))"
  by (auto simp: fixFilenameEncoding_def Let_def dest: clean_Some split: if_splits option.splits)

lemma fix_unfixed: "\<not> wasFixed (fixFilenameEncoding D p) \<Longrightarrow> fixed (fixFilenameEncoding D p) = p"
  by (auto simp: fixFilenameEncoding_def Let_def split: if_splits option.splits)

lemma fix_unfixed_iff:
  "fixFilenameEncoding D F = \<lparr> fixed = F, wasFixed = False \<rparr> \<longleftrightarrow>
   \<not> wasFixed (fixFilenameEncoding D F)"
proof
  assume "fixFilenameEncoding D F = \<lparr> fixed = F, wasFixed = False \<rparr>"
  then show "\<not> wasFixed (fixFilenameEncoding D F)" by simp
next
  assume nf: "\<not> wasFixed (fixFilenameEncoding D F)"
  then have "fixed (fixFilenameEncoding D F) = F" by (rule fix_unfixed)
  with nf show "fixFilenameEncoding D F = \<lparr> fixed = F, wasFixed = False \<rparr>"
    by (cases "fixFilenameEncoding D F") simp
qed

lemma wasFixed_clean_name:
  "isByteString F \<Longrightarrow> \<not> hasEncodingIssues F \<Longrightarrow>
   wasFixed (fixFilenameEncoding D F) \<longleftrightarrow>
     isLikelyEUCKR (map ucast F) \<and> clean (tryDecodeEUCKR D (map ucast F)) \<noteq> None"
  by (simp add: fixFilenameEncoding_def Let_def split: option.split)

section \<open>The loops\<close>

lemma count_type_Nil: "count_type t [] = 0"
  by (simp add: count_type_def)

lemma count_type_snoc: "count_type t (is @ [i]) = count_type t is + (if type i = t then 1 else 0)"
  by (simp add: count_type_def)

text \<open>A property that every iteration keeps holds after the loop.\<close>

lemma analyze_loop_invariant:
  assumes "\<And>pe r. pe \<in> set files \<Longrightarrow> I r \<Longrightarrow> I (analyze_entry D pe r)" and "I r"
  shows "I (analyze_loop D files r)"
  using assms by (induction files arbitrary: r) simp_all

lemma process_loop_invariant:
  assumes step: "\<And>pe s. pe \<in> set files \<Longrightarrow> I s \<Longrightarrow>
      (case process_entry D opts pe s of Inl e \<Rightarrow> True | Inr s' \<Rightarrow> I s')"
    and init: "I s" and run: "process_loop D opts files s = Inr s'"
  shows "I s'"
  using assms
proof (induction files arbitrary: s)
  case Nil
  then show ?case by simp
next
  case (Cons pe rest)
  from Cons.prems(3) obtain s1 where s1: "process_entry D opts pe s = Inr s1"
    and rest: "process_loop D opts rest s1 = Inr s'"
    by (auto split: sum.splits)
  from Cons.prems(1) [of pe s] Cons.prems(2) s1 have "I s1" by simp
  moreover have "\<And>pe s. pe \<in> set rest \<Longrightarrow> I s \<Longrightarrow>
      (case process_entry D opts pe s of Inl e \<Rightarrow> True | Inr s' \<Rightarrow> I s')"
    using Cons.prems(1) by simp
  ultimately show ?case using rest Cons.IH by blast
qed

lemma processZip_Inr:
  "processZip D files options = Inr (z, r) \<Longrightarrow>
   \<exists>s. process_loop D (merge_options DEFAULT_OPTIONS options) files
          \<lparr> report = initial, targetZip = [], processedFiles = 0 \<rparr> = Inr s
       \<and> z = targetZip s \<and> r = finish (report s)"
  by (auto simp: processZip_def Let_def split: sum.splits)

subsection \<open>Counters and issues\<close>

lemma analyze_entry_counted: "counted r \<Longrightarrow> counted (analyze_entry D pe r)"
  by (simp add: analyze_entry_def counted_def push_def Let_def count_type_snoc)

lemma counted_initial: "counted initial"
  by (simp add: counted_def initial_def count_type_Nil)

lemma counted_finish: "counted (finish r) = counted r"
  by (simp add: counted_def finish_def)

lemma analyzeZip_counted: "counted (analyzeZip D files)"
  unfolding analyzeZip_def counted_finish
  by (rule analyze_loop_invariant [where I = counted]) (simp_all add: analyze_entry_counted counted_initial)

lemma process_entry_counted:
  "counted_under opts (report s) \<Longrightarrow>
   (case process_entry D opts pe s of Inl e \<Rightarrow> True | Inr s' \<Rightarrow> counted_under opts (report s'))"
  by (simp add: process_entry_def counted_under_def push_def Let_def count_type_snoc
      split: option.split)

lemma counted_under_initial: "counted_under opts initial"
  by (simp add: counted_under_def initial_def count_type_Nil)

lemma counted_under_finish: "counted_under opts (finish r) = counted_under opts r"
  by (simp add: counted_under_def finish_def)

lemma processZip_counted:
  assumes "processZip D files options = Inr (z, r)"
  shows "counted_under (merge_options DEFAULT_OPTIONS options) r"
proof -
  from processZip_Inr [OF assms] obtain s where
    run: "process_loop D (merge_options DEFAULT_OPTIONS options) files
          \<lparr> report = initial, targetZip = [], processedFiles = 0 \<rparr> = Inr s"
    and r: "r = finish (report s)" by blast
  have "counted_under (merge_options DEFAULT_OPTIONS options) (report s)"
    by (rule process_loop_invariant
          [where I = "\<lambda>s. counted_under (merge_options DEFAULT_OPTIONS options) (report s)",
           OF _ _ run])
       (simp_all add: process_entry_counted counted_under_initial)
  then show ?thesis by (simp add: r counted_under_finish)
qed

subsection \<open>The confidence score\<close>

lemma confidence_spec: "confidence m d e = spec_confidence m d e"
  by (auto simp: confidence_def spec_confidence_def Let_def)

lemma spec_confidence_mono_enc: "e \<le> e' \<Longrightarrow> spec_confidence m d e \<le> spec_confidence m d e'"
  by (auto simp: spec_confidence_def min_def)

lemma spec_confidence_mono_origin:
  "(m > 0 \<or> d > 0 \<longrightarrow> m' > 0 \<or> d' > 0) \<Longrightarrow> spec_confidence m d e \<le> spec_confidence m' d' e"
  by (auto simp: spec_confidence_def min_def)

lemma spec_confidence_le: "spec_confidence m d e \<le> 100"
  by (simp add: spec_confidence_def)

lemma finish_confidence:
  "encodingConfidence (finish r) =
     spec_confidence (macosArtifacts (finish r)) (dsStoreFiles (finish r)) (encodingIssues (finish r))"
  by (simp add: finish_def confidence_spec)

text \<open>The report of \<open>createZipFromFiles\<close> has the confidence 0, whatever it counts.\<close>

lemma createZipFromFiles_confidence:
  "createZipFromFiles files options = Inr (z, r) \<Longrightarrow> encodingConfidence r = 0"
  by (auto simp: createZipFromFiles_def Let_def split: sum.splits)

subsection \<open>Precedence of the metadata artifact\<close>

lemma analyze_entry_hidden:
  "hiddenFiles (analyze_entry D pe r) = hiddenFiles r + (if hidden_counted pe then 1 else 0)"
  by (simp add: analyze_entry_def hidden_counted_def push_def Let_def)

lemma analyze_entry_macos:
  "macosArtifacts (analyze_entry D pe r) = macosArtifacts r + (if macos_counted pe then 1 else 0)"
  by (simp add: analyze_entry_def macos_counted_def push_def Let_def)

lemma analyze_entry_typed: "artifacts_typed r \<Longrightarrow> artifacts_typed (analyze_entry D pe r)"
  by (simp add: analyze_entry_def artifacts_typed_def push_def Let_def)

lemma analyze_loop_hidden:
  "hiddenFiles (analyze_loop D files r) = hiddenFiles r + length (filter hidden_counted files)"
  by (induction files arbitrary: r) (simp_all add: analyze_entry_hidden)

lemma analyze_loop_macos:
  "macosArtifacts (analyze_loop D files r) = macosArtifacts r + length (filter macos_counted files)"
  by (induction files arbitrary: r) (simp_all add: analyze_entry_macos)

lemma analyzeZip_typed: "artifacts_typed (analyzeZip D files)"
proof -
  have "artifacts_typed (analyze_loop D files initial)"
  proof (rule analyze_loop_invariant [where I = artifacts_typed])
    show "artifacts_typed initial" by (simp add: artifacts_typed_def initial_def)
  qed (rule analyze_entry_typed)
  then show ?thesis by (simp add: analyzeZip_def artifacts_typed_def finish_def)
qed

lemma process_entry_precedence:
  "removeMAcOSArtifacts opts \<Longrightarrow>
   (case process_entry D opts pe s of
      Inl e \<Rightarrow> True
    | Inr s' \<Rightarrow>
        hiddenFiles (report s') = hiddenFiles (report s) + (if hidden_counted_under opts pe then 1 else 0) \<and>
        macosArtifacts (report s') = macosArtifacts (report s) + (if macos_counted pe then 1 else 0) \<and>
        (artifacts_typed (report s) \<longrightarrow> artifacts_typed (report s')))"
  by (simp add: process_entry_def hidden_counted_under_def macos_counted_def artifacts_typed_def
      push_def Let_def split: option.split)

lemma process_loop_precedence:
  "removeMAcOSArtifacts opts \<Longrightarrow> process_loop D opts files s = Inr s' \<Longrightarrow>
   hiddenFiles (report s') = hiddenFiles (report s) + length (filter (hidden_counted_under opts) files) \<and>
   macosArtifacts (report s') = macosArtifacts (report s) + length (filter macos_counted files) \<and>
   (artifacts_typed (report s) \<longrightarrow> artifacts_typed (report s'))"
proof (induction files arbitrary: s)
  case Nil
  then show ?case by simp
next
  case (Cons pe rest)
  from Cons.prems(2) obtain s1 where s1: "process_entry D opts pe s = Inr s1"
    and rest: "process_loop D opts rest s1 = Inr s'"
    by (auto split: sum.splits)
  from process_entry_precedence [OF Cons.prems(1), where D = D and pe = pe and s = s] s1
  have step: "hiddenFiles (report s1) = hiddenFiles (report s) + (if hidden_counted_under opts pe then 1 else 0)"
    "macosArtifacts (report s1) = macosArtifacts (report s) + (if macos_counted pe then 1 else 0)"
    "artifacts_typed (report s) \<longrightarrow> artifacts_typed (report s1)"
    by simp_all
  from Cons.IH [OF Cons.prems(1) rest] step show ?case by simp
qed

subsection \<open>Payloads\<close>

lemma zip_file_set: "(p, bs) \<in> set (zip_file z n d) \<Longrightarrow> (p, bs) = (n, d) \<or> (p, bs) \<in> set z"
  by (induction z n d rule: zip_file.induct) (auto split: if_splits)

lemma process_entry_target:
  "case process_entry D opts pe s of
     Inl e \<Rightarrow> True
   | Inr s' \<Rightarrow> \<forall>out \<in> set (targetZip s'). out \<in> set (targetZip s) \<or> copied D opts pe out"
  by (auto simp add: process_entry_def Let_def copied_def split: option.split dest!: zip_file_set)

lemma processZip_copied:
  assumes run: "processZip D files options = Inr (z, r)" and out: "out \<in> set z"
  shows "\<exists>pe \<in> set files. copied D (merge_options DEFAULT_OPTIONS options) pe out"
proof -
  let ?opts = "merge_options DEFAULT_OPTIONS options"
  let ?I = "\<lambda>s::rewrite_state. \<forall>out \<in> set (targetZip s). \<exists>pe \<in> set files. copied D ?opts pe out"
  from processZip_Inr [OF run] obtain s where
    loop: "process_loop D ?opts files \<lparr> report = initial, targetZip = [], processedFiles = 0 \<rparr> = Inr s"
    and z: "z = targetZip s" by blast
  have step: "\<And>pe s. pe \<in> set files \<Longrightarrow> ?I s \<Longrightarrow>
      (case process_entry D ?opts pe s of Inl e \<Rightarrow> True | Inr s' \<Rightarrow> ?I s')"
  proof -
    fix pe s assume pe: "pe \<in> set files" and I: "?I s"
    show "case process_entry D ?opts pe s of Inl e \<Rightarrow> True | Inr s' \<Rightarrow> ?I s'"
      using process_entry_target [where D = D and opts = ?opts and pe = pe and s = s] pe I
      by (cases "process_entry D ?opts pe s") (simp, fastforce)
  qed
  have "?I s"
    by (rule process_loop_invariant [where I = ?I, OF step _ loop]) simp_all
  with z out show ?thesis by blast
qed

subsection \<open>Repaired names in the issues\<close>

lemma analyze_entry_clean: "repaired_clean r \<Longrightarrow> repaired_clean (analyze_entry D pe r)"
  by (simp add: analyze_entry_def repaired_clean_def push_def Let_def free_of_damage_iff
      fix_wasFixed_clean)

lemma process_entry_clean:
  "repaired_clean (report s) \<Longrightarrow>
   (case process_entry D opts pe s of Inl e \<Rightarrow> True | Inr s' \<Rightarrow> repaired_clean (report s'))"
  by (simp add: process_entry_def repaired_clean_def push_def Let_def free_of_damage_iff
      fix_wasFixed_clean split: option.split)

lemma repaired_clean_initial: "repaired_clean initial"
  by (simp add: repaired_clean_def initial_def)

lemma repaired_clean_finish: "repaired_clean (finish r) = repaired_clean r"
  by (simp add: repaired_clean_def finish_def)

lemma analyzeZip_clean: "repaired_clean (analyzeZip D files)"
  unfolding analyzeZip_def repaired_clean_finish
  by (rule analyze_loop_invariant [where I = repaired_clean])
     (simp_all add: analyze_entry_clean repaired_clean_initial)

lemma processZip_clean:
  assumes "processZip D files options = Inr (z, r)"
  shows "repaired_clean r"
proof -
  from processZip_Inr [OF assms] obtain s where
    run: "process_loop D (merge_options DEFAULT_OPTIONS options) files
          \<lparr> report = initial, targetZip = [], processedFiles = 0 \<rparr> = Inr s"
    and r: "r = finish (report s)" by blast
  have "repaired_clean (report s)"
    by (rule process_loop_invariant [where I = "\<lambda>s. repaired_clean (report s)", OF _ _ run])
       (simp_all add: process_entry_clean repaired_clean_initial)
  then show ?thesis by (simp add: r repaired_clean_finish)
qed

section \<open>Evaluation on the concrete archives\<close>

lemmas eval_defs = processZip_def analyzeZip_def process_entry_def analyze_entry_def
  merge_options_def DEFAULT_OPTIONS_def no_options_def initial_def finish_def push_def
  confidence_def file_entry_def Let_def js_def SLASH_def
  isMacOSArtifact_def isDSStore_def isHiddenFile_def endsWith_def
  fixFilenameEncoding_def hasEncodingIssues_def suspiciousPatterns_def test_def in_class_def
  isLikelyEUCKR_def tryDecodeEUCKR_def tryDecodeShiftJIS_def tryDecodeGBK_def clean_def
  sample_decoders_def euc_kr_index_def ascii_fragment_def

lemma processZip_sample:
  "processZip sample_decoders sample_archive no_options = Inr (sample_output, sample_report)"
  by (simp add: eval_defs sample_archive_def sample_output_def sample_report_def
      mojibake_name_def repaired_name_def)

lemma processZip_gitignore:
  "processZip sample_decoders gitignore_archive no_options =
     Inr ([(js ''.gitignore'', [0x2A])], gitignore_report)"
  by (simp add: eval_defs gitignore_archive_def gitignore_report_def)

lemma processZip_artifact:
  "processZip sample_decoders artifact_archive keep_artifacts =
     Inr ([(js ''__MACOSX/._doc.txt'', [1])], artifact_report)"
  by (simp add: eval_defs artifact_archive_def artifact_report_def keep_artifacts_def)

lemma repair_mojibake:
  "fixFilenameEncoding sample_decoders mojibake_name = \<lparr> fixed = repaired_name, wasFixed = True \<rparr>"
  by (simp add: eval_defs mojibake_name_def repaired_name_def)

lemma default_options:
  "merge_options DEFAULT_OPTIONS no_options = DEFAULT_OPTIONS"
  by (simp add: merge_options_def no_options_def DEFAULT_OPTIONS_def)

lemma processZip_strict:
  "processZip sample_decoders sample_archive strict_options = Inr (strict_output, strict_report)"
  by (simp add: eval_defs sample_archive_def strict_options_def strict_output_def
      strict_report_def mojibake_name_def repaired_name_def)

lemma strict_options_merged:
  "merge_options DEFAULT_OPTIONS strict_options =
     \<lparr> removeMAcOSArtifacts = True, removeDSStore = True, removeHiddenFiles = True,
       fixEncoding = True \<rparr>"
  by (simp add: merge_options_def strict_options_def DEFAULT_OPTIONS_def)

text \<open>A path whose last part is \<open>.DS_Store\<close> is a settings file for \<open>isDSStore\<close>.\<close>

lemma isDSStore_final_segment:
  assumes "last (split path SLASH) = js ''.DS_Store''"
  shows "isDSStore path"
proof -
  have ne: "split path SLASH \<noteq> []" by (rule split_nonempty)
  then have sp: "split path SLASH = butlast (split path SLASH) @ [js ''.DS_Store'']"
    using assms by (metis append_butlast_last_id)
  have path: "path = join SLASH (split path SLASH)" by (simp add: join_split)
  have "\<exists>a. path = a @ js ''.DS_Store''"
  proof (cases "butlast (split path SLASH) = []")
    case True
    with sp path have "path = [] @ js ''.DS_Store''" by simp
    then show ?thesis by blast
  next
    case False
    then have "join SLASH (butlast (split path SLASH) @ [js ''.DS_Store''])
        = join SLASH (butlast (split path SLASH)) @ SLASH # join SLASH [js ''.DS_Store'']"
      by (rule join_append) simp
    with sp path have "path = (join SLASH (butlast (split path SLASH)) @ [SLASH]) @ js ''.DS_Store''"
      by simp
    then show ?thesis by blast
  qed
  then have "suffix (js ''.DS_Store'') path" by (auto simp: suffix_def)
  then show ?thesis by (simp add: isDSStore_def endsWith_suffix)
qed

section \<open>The claims\<close>

text \<open>
  Claim C1, amended. In every report of \<open>analyzeZip\<close> each of the four counters is the
  number of issues of its kind. In every report of \<open>processZip\<close> the encoding counter is the
  number of encoding issues; each of the other three counters is at least the number of
  issues of its kind, and is that number when the option that removes the kind is on:
  \<open>processZip\<close> counts an entry that it detects and records an issue for an entry that it
  removes.
\<close>

theorem counters_and_issues:
  "(let r = analyzeZip D files
    in encodingIssues r = count_type encoding (issues r) \<and>
       macosArtifacts r = count_type macos_artifact (issues r) \<and>
       dsStoreFiles r = count_type ds_store (issues r) \<and>
       hiddenFiles r = count_type hidden_file (issues r)) \<and>
   (processZip D files options = Inr (z, r) \<longrightarrow>
      (let opts = merge_options DEFAULT_OPTIONS options
       in encodingIssues r = count_type encoding (issues r) \<and>
          count_type macos_artifact (issues r) \<le> macosArtifacts r \<and>
          count_type ds_store (issues r) \<le> dsStoreFiles r \<and>
          count_type hidden_file (issues r) \<le> hiddenFiles r \<and>
          (removeMAcOSArtifacts opts \<longrightarrow> macosArtifacts r = count_type macos_artifact (issues r)) \<and>
          (removeDSStore opts \<longrightarrow> dsStoreFiles r = count_type ds_store (issues r)) \<and>
          (removeHiddenFiles opts \<longrightarrow> hiddenFiles r = count_type hidden_file (issues r))))"
  using analyzeZip_counted [of D files] processZip_counted [of D files options z r]
  by (simp add: counted_def counted_under_def Let_def)

theorem counters_and_issues_witness:
  "processZip sample_decoders sample_archive strict_options = Inr (strict_output, strict_report) \<and>
   encodingIssues strict_report = count_type encoding (issues strict_report) \<and>
   macosArtifacts strict_report = count_type macos_artifact (issues strict_report) \<and>
   dsStoreFiles strict_report = count_type ds_store (issues strict_report) \<and>
   hiddenFiles strict_report = count_type hidden_file (issues strict_report) \<and>
   hiddenFiles (analyzeZip sample_decoders sample_archive) =
     count_type hidden_file (issues (analyzeZip sample_decoders sample_archive))"
  using counters_and_issues [of sample_decoders sample_archive strict_options strict_output strict_report]
    processZip_strict
  by (simp add: Let_def strict_options_merged)

text \<open>
  With the default options \<open>processZip\<close> keeps the hidden file \<open>.gitignore\<close>: it counts the
  file and records no issue for it.
\<close>

theorem rewrite_counts_kept_hidden_file:
  "processZip sample_decoders gitignore_archive no_options =
     Inr ([(js ''.gitignore'', [0x2A])], gitignore_report) \<and>
   hiddenFiles gitignore_report \<noteq> count_type hidden_file (issues gitignore_report)"
  by (simp add: processZip_gitignore) (simp add: gitignore_report_def count_type_def)

text \<open>
  Claim C2. A string with a code unit above 0xFF comes back from the repair as it is, with
  \<open>wasFixed\<close> false, whatever the decoders are.
\<close>

theorem repair_leaves_unicode_unchanged:
  "\<not> isByteString S \<Longrightarrow> fixFilenameEncoding D S = \<lparr> fixed = S, wasFixed = False \<rparr>"
  by (simp add: fixFilenameEncoding_def)

theorem repair_leaves_unicode_unchanged_witness:
  "\<not> isByteString repaired_name \<and>
   fixFilenameEncoding sample_decoders repaired_name = \<lparr> fixed = repaired_name, wasFixed = False \<rparr>"
proof -
  have "\<not> isByteString repaired_name" by (simp add: repaired_name_def js_def)
  then show ?thesis
    using repair_leaves_unicode_unchanged [of repaired_name sample_decoders] by simp
qed

text \<open>
  Claim C3, amended. The repair of a repaired path returns it as it is, with \<open>wasFixed\<close>
  false, exactly when the first repair left the path as it was, or the repaired name has a
  code unit above 0xFF, or its bytes have no pair that looks like EUC-KR, or the EUC-KR
  decoding of its bytes fails, is empty or looks damaged. This holds for every decoder.
\<close>

theorem repair_twice:
  "fixFilenameEncoding D (fixed (fixFilenameEncoding D P))
     = \<lparr> fixed = fixed (fixFilenameEncoding D P), wasFixed = False \<rparr> \<longleftrightarrow>
   (\<not> wasFixed (fixFilenameEncoding D P) \<or>
    \<not> isByteString (fixed (fixFilenameEncoding D P)) \<or>
    \<not> isLikelyEUCKR (map ucast (fixed (fixFilenameEncoding D P))) \<or>
    clean (tryDecodeEUCKR D (map ucast (fixed (fixFilenameEncoding D P)))) = None)"
proof (cases "wasFixed (fixFilenameEncoding D P)")
  case False
  then have "fixed (fixFilenameEncoding D P) = P" by (rule fix_unfixed)
  with False show ?thesis by (simp add: fix_unfixed_iff)
next
  case True
  then have cl: "\<not> hasEncodingIssues (fixed (fixFilenameEncoding D P))"
    by (rule fix_wasFixed_clean)
  show ?thesis
  proof (cases "isByteString (fixed (fixFilenameEncoding D P))")
    case False
    then show ?thesis by (simp add: fixFilenameEncoding_def)
  next
    case byte: True
    show ?thesis
      unfolding fix_unfixed_iff wasFixed_clean_name [OF byte cl] using True byte by simp
  qed
qed

theorem repair_twice_witness:
  "wasFixed (fixFilenameEncoding sample_decoders [0xA8, 0xA1]) \<and>
   isByteString (fixed (fixFilenameEncoding sample_decoders [0xA8, 0xA1])) \<and>
   \<not> isLikelyEUCKR (map ucast (fixed (fixFilenameEncoding sample_decoders [0xA8, 0xA1]))) \<and>
   fixFilenameEncoding sample_decoders (fixed (fixFilenameEncoding sample_decoders [0xA8, 0xA1]))
     = \<lparr> fixed = fixed (fixFilenameEncoding sample_decoders [0xA8, 0xA1]), wasFixed = False \<rparr>"
proof -
  have r: "fixFilenameEncoding sample_decoders [0xA8, 0xA1] = \<lparr> fixed = [0xC6], wasFixed = True \<rparr>"
    by (simp add: eval_defs)
  have a: "wasFixed (fixFilenameEncoding sample_decoders [0xA8, 0xA1])"
    and b: "isByteString (fixed (fixFilenameEncoding sample_decoders [0xA8, 0xA1]))"
    and c: "\<not> isLikelyEUCKR (map ucast (fixed (fixFilenameEncoding sample_decoders [0xA8, 0xA1])))"
    by (simp_all add: r isLikelyEUCKR_def)
  show ?thesis
    using repair_twice [of sample_decoders "[0xA8, 0xA1]"] a b c by blast
qed

text \<open>
  The bytes 0xA8 0xA1 0xA8 0xA1, read one byte per character, are repaired to U+00C6 U+00C6.
  That name is again a byte string with a pair that looks like EUC-KR (0xC6 0xC6), and its
  repair is U+D30E with \<open>wasFixed\<close> true.
\<close>

theorem repair_not_idempotent:
  "fixFilenameEncoding sample_decoders
     (fixed (fixFilenameEncoding sample_decoders [0xA8, 0xA1, 0xA8, 0xA1]))
   \<noteq> \<lparr> fixed = fixed (fixFilenameEncoding sample_decoders [0xA8, 0xA1, 0xA8, 0xA1]),
       wasFixed = False \<rparr>"
  by (simp add: eval_defs)

text \<open>
  Claim C4, amended. \<open>hasEncodingIssues\<close> flags a string exactly when it has the code unit
  U+FFFD, U+FFFE or U+FFFF, or a code unit from 0x80 to 0x9F.
\<close>

theorem detector_characterisation:
  "hasEncodingIssues s \<longleftrightarrow>
     (\<exists>c \<in> set s. c = 0xFFFD \<or> c = 0xFFFE \<or> c = 0xFFFF \<or> (0x80 \<le> c \<and> c \<le> 0x9F))"
  by (rule hasEncodingIssues_iff)

theorem detector_characterisation_witness:
  "hasEncodingIssues [0x41, 0x85] \<and> \<not> hasEncodingIssues [0x41, 0xFEFF]"
  using detector_characterisation [of "[0x41, 0x85]"] detector_characterisation [of "[0x41, 0xFEFF]"]
  by simp

text \<open>The byte-order mark U+FEFF alone is damaged for the specification, not for the detector.\<close>

theorem detector_misses_byte_order_mark:
  "hasEncodingIssues [0xFEFF] \<noteq> spec_looksDamaged [0xFEFF]"
  by (simp add: hasEncodingIssues_def suspiciousPatterns_def test_def in_class_def
      spec_looksDamaged_def)

text \<open>
  Claim C5. In every report of \<open>analyzeZip\<close> and of \<open>processZip\<close> the confidence is
  40 when there is a metadata artifact or a settings file and 0 otherwise, plus
  \<open>min(60, encodingIssues * 15)\<close>, kept within 0 and 100; the score does not decrease when
  \<open>encodingIssues\<close> grows or when a metadata artifact or settings file appears, and it is at
  most 100.
\<close>

theorem confidence_formula:
  "encodingConfidence (analyzeZip D files) =
     spec_confidence (macosArtifacts (analyzeZip D files)) (dsStoreFiles (analyzeZip D files))
       (encodingIssues (analyzeZip D files)) \<and>
   (processZip D files options = Inr (z, r) \<longrightarrow>
      encodingConfidence r = spec_confidence (macosArtifacts r) (dsStoreFiles r) (encodingIssues r)) \<and>
   (e \<le> e' \<longrightarrow> spec_confidence m d e \<le> spec_confidence m d e') \<and>
   ((m > 0 \<or> d > 0 \<longrightarrow> m' > 0 \<or> d' > 0) \<longrightarrow> spec_confidence m d e \<le> spec_confidence m' d' e) \<and>
   0 \<le> spec_confidence m d e \<and> spec_confidence m d e \<le> 100"
proof -
  have "processZip D files options = Inr (z, r) \<longrightarrow>
      encodingConfidence r = spec_confidence (macosArtifacts r) (dsStoreFiles r) (encodingIssues r)"
    using processZip_Inr [of D files options z r] finish_confidence by blast
  then show ?thesis
    using spec_confidence_mono_enc [of e e' m d] spec_confidence_mono_origin [of m d m' d' e]
    by (simp add: analyzeZip_def finish_confidence spec_confidence_le)
qed

theorem confidence_formula_witness:
  "processZip sample_decoders sample_archive no_options = Inr (sample_output, sample_report) \<and>
   encodingConfidence sample_report =
     spec_confidence (macosArtifacts sample_report) (dsStoreFiles sample_report)
       (encodingIssues sample_report) \<and>
   spec_confidence 0 0 1 \<le> spec_confidence 0 0 2 \<and>
   spec_confidence 0 0 1 \<le> spec_confidence 0 1 1"
  using confidence_formula [where D = sample_decoders and files = sample_archive
      and options = no_options and z = sample_output and r = sample_report
      and e = 1 and e' = 2 and m = 0 and d = 0 and m' = 0 and d' = 1]
    processZip_sample
  by simp

text \<open>
  The sibling operation \<open>createZipFromFiles\<close> has no encoding repair and writes the
  confidence of its report as the literal 0: for the one host file \<open>.DS_Store\<close> the report
  counts a settings file and has confidence 0.
\<close>

lemma host_files_confidence_is_zero:
  "createZipFromFiles ds_store_host_files no_options = Inr ([], ds_store_host_report) \<and>
   encodingConfidence ds_store_host_report \<noteq>
     spec_confidence (macosArtifacts ds_store_host_report) (dsStoreFiles ds_store_host_report)
       (encodingIssues ds_store_host_report)"
  by (simp add: eval_defs createZipFromFiles_def create_entry_def relativePath_def
      ds_store_host_files_def ds_store_host_report_def spec_confidence_def)

text \<open>
  Claim C6, amended. A path that matches the metadata-artifact pattern and the hidden-file
  pattern is counted only as a metadata artifact in every report of \<open>analyzeZip\<close>, and in
  every report of \<open>processZip\<close> when \<open>removeMAcOSArtifacts\<close> is on: the hidden-file counter
  is the number of entries that are files, match the hidden-file pattern and do not match
  the metadata-artifact pattern (nor the settings-file pattern, where that ends the
  iteration); the metadata-artifact counter is the number of files that match its pattern;
  and every issue recorded for the path is a metadata-artifact issue.
\<close>

theorem artifact_precedence:
  "isMacOSArtifact path \<and> isHiddenFile path \<longrightarrow>
     (\<not> hidden_counted (path, e) \<and>
      hiddenFiles (analyzeZip D files) = length (filter hidden_counted files) \<and>
      macosArtifacts (analyzeZip D files) = length (filter macos_counted files) \<and>
      (\<forall>i \<in> set (issues (analyzeZip D files)). originalPath i = path \<longrightarrow> type i = macos_artifact)) \<and>
     (processZip D files options = Inr (z, r) \<and>
      removeMAcOSArtifacts (merge_options DEFAULT_OPTIONS options) \<longrightarrow>
        \<not> hidden_counted_under (merge_options DEFAULT_OPTIONS options) (path, e) \<and>
        hiddenFiles r = length (filter (hidden_counted_under (merge_options DEFAULT_OPTIONS options)) files) \<and>
        macosArtifacts r = length (filter macos_counted files) \<and>
        (\<forall>i \<in> set (issues r). originalPath i = path \<longrightarrow> type i = macos_artifact))"
proof (intro impI conjI)
  assume both: "isMacOSArtifact path \<and> isHiddenFile path"
  show "\<not> hidden_counted (path, e)" using both by (simp add: hidden_counted_def)
  show "hiddenFiles (analyzeZip D files) = length (filter hidden_counted files)"
    by (simp add: analyzeZip_def finish_def analyze_loop_hidden initial_def)
  show "macosArtifacts (analyzeZip D files) = length (filter macos_counted files)"
    by (simp add: analyzeZip_def finish_def analyze_loop_macos initial_def)
  show "\<forall>i \<in> set (issues (analyzeZip D files)). originalPath i = path \<longrightarrow> type i = macos_artifact"
    using analyzeZip_typed [of D files] both by (auto simp: artifacts_typed_def)
next
  let ?opts = "merge_options DEFAULT_OPTIONS options"
  assume both: "isMacOSArtifact path \<and> isHiddenFile path"
    and run: "processZip D files options = Inr (z, r) \<and> removeMAcOSArtifacts ?opts"
  from run processZip_Inr [of D files options z r] obtain s where
    loop: "process_loop D ?opts files \<lparr> report = initial, targetZip = [], processedFiles = 0 \<rparr> = Inr s"
    and r: "r = finish (report s)" by blast
  from run have rm: "removeMAcOSArtifacts ?opts" by simp
  note facts = process_loop_precedence [OF rm loop]
  show "\<not> hidden_counted_under ?opts (path, e)" using both by (simp add: hidden_counted_under_def)
  show "hiddenFiles r = length (filter (hidden_counted_under ?opts) files)"
    using facts by (simp add: r finish_def initial_def)
  show "macosArtifacts r = length (filter macos_counted files)"
    using facts by (simp add: r finish_def initial_def)
  have "artifacts_typed r"
    using facts by (simp add: r finish_def initial_def artifacts_typed_def)
  then show "\<forall>i \<in> set (issues r). originalPath i = path \<longrightarrow> type i = macos_artifact"
    using both by (auto simp: artifacts_typed_def)
qed

theorem artifact_precedence_witness:
  "isMacOSArtifact (js ''__MACOSX/._doc.txt'') \<and> isHiddenFile (js ''__MACOSX/._doc.txt'') \<and>
   processZip sample_decoders sample_archive no_options = Inr (sample_output, sample_report) \<and>
   removeMAcOSArtifacts (merge_options DEFAULT_OPTIONS no_options) \<and>
   \<not> hidden_counted (js ''__MACOSX/._doc.txt'', file_entry [1]) \<and>
   hiddenFiles (analyzeZip sample_decoders sample_archive) = length (filter hidden_counted sample_archive) \<and>
   hiddenFiles sample_report = length (filter (hidden_counted_under DEFAULT_OPTIONS) sample_archive) \<and>
   macosArtifacts sample_report = length (filter macos_counted sample_archive)"
proof -
  have both: "isMacOSArtifact (js ''__MACOSX/._doc.txt'') \<and> isHiddenFile (js ''__MACOSX/._doc.txt'')"
    by (simp add: isMacOSArtifact_def isHiddenFile_def js_def SLASH_def)
  have rm: "removeMAcOSArtifacts (merge_options DEFAULT_OPTIONS no_options)"
    unfolding default_options by (simp add: DEFAULT_OPTIONS_def)
  show ?thesis
    using artifact_precedence [where path = "js ''__MACOSX/._doc.txt''" and e = "file_entry [1]"
        and D = sample_decoders and files = sample_archive and options = no_options
        and z = sample_output and r = sample_report]
      both rm processZip_sample
    by (simp add: default_options)
qed

text \<open>
  With \<open>removeMAcOSArtifacts\<close> off, \<open>processZip\<close> keeps the entry \<open>__MACOSX/._doc.txt\<close>, goes
  on to the next tests and counts it as a metadata artifact and as a hidden file.
\<close>

theorem kept_artifact_counted_as_hidden:
  "isMacOSArtifact (js ''__MACOSX/._doc.txt'') \<and> isHiddenFile (js ''__MACOSX/._doc.txt'') \<and>
   processZip sample_decoders artifact_archive keep_artifacts =
     Inr ([(js ''__MACOSX/._doc.txt'', [1])], artifact_report) \<and>
   macosArtifacts artifact_report = 1 \<and> hiddenFiles artifact_report = 1"
  by (simp add: processZip_artifact)
     (simp add: artifact_report_def isMacOSArtifact_def isHiddenFile_def js_def SLASH_def)

text \<open>
  Claim C7. \<open>isDSStore\<close> should hold exactly when the last part of the path is \<open>.DS_Store\<close>.
  It holds for every such path (\<open>isDSStore_final_segment\<close>), and also for the file
  \<open>notes.DS_Store\<close> and for the file \<open>b\<close> in a directory \<open>.DS_Store\<close>, whose last parts are
  not \<open>.DS_Store\<close>: \<open>endsWith\<close> and \<open>includes\<close> do not look at the boundaries of the part.
\<close>

theorem settings_file_beyond_final_segment:
  "isDSStore (js ''notes.DS_Store'') \<and>
   last (split (js ''notes.DS_Store'') SLASH) \<noteq> js ''.DS_Store'' \<and>
   isDSStore (js ''a/.DS_Store/b'') \<and>
   last (split (js ''a/.DS_Store/b'') SLASH) \<noteq> js ''.DS_Store''"
  by (simp add: isDSStore_def js_def endsWith_def SLASH_def)

text \<open>
  Claim C8. \<open>isMacOSArtifact\<close> holds exactly when \<open>__MACOSX\<close> is a directory component of
  the path: one of the parts of \<open>path.split('/')\<close> other than the last, compared as a whole
  and with its case. The first part is the path that begins with the name, a later part
  the path that contains it.
\<close>

theorem metadata_artifact_segment:
  "isMacOSArtifact path \<longleftrightarrow> js ''__MACOSX'' \<in> set (butlast (split path SLASH))"
proof -
  have "SLASH \<notin> set (js ''__MACOSX'')" by (simp add: js_def SLASH_def)
  from segment_iff [OF this, of path]
  show ?thesis by (simp add: isMacOSArtifact_def js_def SLASH_def)
qed

theorem metadata_artifact_segment_witness:
  "isMacOSArtifact (js ''a/__MACOSX/b.txt'') \<and> \<not> isMacOSArtifact (js ''a/__macosx/b.txt'') \<and>
   \<not> isMacOSArtifact (js ''a/x__MACOSX/b.txt'') \<and> \<not> isMacOSArtifact (js ''a/__MACOSX'')"
  using metadata_artifact_segment [of "js ''a/__MACOSX/b.txt''"]
    metadata_artifact_segment [of "js ''a/__macosx/b.txt''"]
    metadata_artifact_segment [of "js ''a/x__MACOSX/b.txt''"]
    metadata_artifact_segment [of "js ''a/__MACOSX''"]
  by (simp add: js_def SLASH_def)

text \<open>
  Claim C9. Every file of the archive that \<open>processZip\<close> returns has the bytes of an entry
  of the source that is a file, under the path of that entry or, when \<open>fixEncoding\<close> is on
  and the repair fixed the path, under the repaired path.
\<close>

theorem rewrite_preserves_payload:
  "processZip D files options = Inr (z, r) \<Longrightarrow> (p, bs) \<in> set z \<Longrightarrow>
   \<exists>pe \<in> set files.
     \<not> dir (snd pe) \<and> content (snd pe) = Some bs \<and>
     (p = fst pe \<or>
      fixEncoding (merge_options DEFAULT_OPTIONS options) \<and>
      wasFixed (fixFilenameEncoding D (fst pe)) \<and> p = fixed (fixFilenameEncoding D (fst pe)))"
proof -
  assume "processZip D files options = Inr (z, r)" and "(p, bs) \<in> set z"
  from processZip_copied [OF this] obtain pe where "pe \<in> set files"
    and "copied D (merge_options DEFAULT_OPTIONS options) pe (p, bs)" by blast
  then show ?thesis
    by (intro bexI [of _ pe]) (auto simp: copied_def split: if_splits)
qed

theorem rewrite_preserves_payload_witness:
  "processZip sample_decoders sample_archive no_options = Inr (sample_output, sample_report) \<and>
   (repaired_name, [4]) \<in> set sample_output \<and>
   (\<exists>pe \<in> set sample_archive.
      \<not> dir (snd pe) \<and> content (snd pe) = Some [4] \<and>
      (repaired_name = fst pe \<or>
       fixEncoding (merge_options DEFAULT_OPTIONS no_options) \<and>
       wasFixed (fixFilenameEncoding sample_decoders (fst pe)) \<and>
       repaired_name = fixed (fixFilenameEncoding sample_decoders (fst pe))))"
proof -
  have "(repaired_name, [4]) \<in> set sample_output" by (simp add: sample_output_def)
  then show ?thesis
    using rewrite_preserves_payload [OF processZip_sample, of repaired_name "[4]"] processZip_sample
    by blast
qed

text \<open>
  Claim C10. When the repair returns \<open>wasFixed\<close> true, the fixed name does not satisfy the
  detector: it has no replacement character U+FFFD, no C1 control (0x80 to 0x9F) and none
  of the non-characters U+FFFE and U+FFFF. So the \<open>fixedPath\<close> of every encoding issue of a
  report of \<open>analyzeZip\<close> or \<open>processZip\<close> is there and is free of them.
\<close>

theorem repaired_name_is_clean:
  "(wasFixed (fixFilenameEncoding D path) \<longrightarrow>
      \<not> hasEncodingIssues (fixed (fixFilenameEncoding D path)) \<and>
      spec_free_of_damage (fixed (fixFilenameEncoding D path))) \<and>
   (\<forall>i \<in> set (issues (analyzeZip D files)). type i = encoding \<longrightarrow>
      (\<exists>f. fixedPath i = Some f \<and> spec_free_of_damage f)) \<and>
   (processZip D files options = Inr (z, r) \<longrightarrow>
      (\<forall>i \<in> set (issues r). type i = encoding \<longrightarrow>
         (\<exists>f. fixedPath i = Some f \<and> spec_free_of_damage f)))"
  using fix_wasFixed_clean [of D path] analyzeZip_clean [of D files]
    processZip_clean [of D files options z r]
  by (simp add: free_of_damage_iff repaired_clean_def)

theorem repaired_name_is_clean_witness:
  "wasFixed (fixFilenameEncoding sample_decoders mojibake_name) \<and>
   spec_free_of_damage (fixed (fixFilenameEncoding sample_decoders mojibake_name)) \<and>
   processZip sample_decoders sample_archive no_options = Inr (sample_output, sample_report) \<and>
   type (issues sample_report ! 2) = encoding \<and>
   (\<exists>f. fixedPath (issues sample_report ! 2) = Some f \<and> spec_free_of_damage f)"
proof -
  have fixed: "wasFixed (fixFilenameEncoding sample_decoders mojibake_name)"
    by (simp add: repair_mojibake)
  have issue: "issues sample_report ! 2 \<in> set (issues sample_report)"
    "type (issues sample_report ! 2) = encoding"
    by (simp_all add: sample_report_def)
  show ?thesis
    using repaired_name_is_clean [where D = sample_decoders and path = mojibake_name
        and files = sample_archive and options = no_options and z = sample_output
        and r = sample_report]
      processZip_sample fixed issue
    by blast
qed

end
